theory Spec2Isabelle
  imports Main "HOL-Library.Multiset"
begin

section \<open>Instants and the Date operations of the scheduling service\<close>

text \<open>
  A JavaScript \<^verbatim>\<open>Date\<close> holds a number of milliseconds. The service reads and writes
  dates through the local-time methods \<^verbatim>\<open>setHours\<close>, \<^verbatim>\<open>getHours\<close>, \<^verbatim>\<open>getDay\<close>,
  \<^verbatim>\<open>setDate\<close>, \<^verbatim>\<open>setMinutes\<close>, and otherwise only compares and subtracts
  \<^verbatim>\<open>getTime()\<close> values. The model takes the host's time zone to have a constant UTC
  offset and counts an instant in milliseconds of local time since local midnight of
  1970-01-01, a Thursday; daylight-saving shifts and the range limit of \<^verbatim>\<open>Date\<close>
  are outside the model. Durations and buffers are whole minutes.
\<close>

type_synonym instant = int

definition msPerMinute :: int where
  "msPerMinute = 60 * 1000"

definition msPerHour :: int where
  "msPerHour = 60 * 60 * 1000"

definition msPerDay :: int where
  "msPerDay = 1000 * 60 * 60 * 24"

definition startOfDay :: "instant \<Rightarrow> instant" where
  "startOfDay t = t - t mod msPerDay"

text \<open>\<^verbatim>\<open>getDay()\<close>: 0 is Sunday, 6 is Saturday.\<close>

definition getDay :: "instant \<Rightarrow> int" where
  "getDay t = (t div msPerDay + 4) mod 7"

definition getHours :: "instant \<Rightarrow> int" where
  "getHours t = (t mod msPerDay) div msPerHour"

text \<open>\<^verbatim>\<open>d.setHours(h, m, 0, 0)\<close>: the day of \<open>d\<close> at \<open>h:m:00.000\<close>; hours and
  minutes beyond a day carry over, as in JavaScript.\<close>

definition setHours :: "instant \<Rightarrow> int \<Rightarrow> int \<Rightarrow> instant" where
  "setHours t h m = startOfDay t + h * msPerHour + m * msPerMinute"

text \<open>\<^verbatim>\<open>d.setDate(d.getDate() + n)\<close> and \<^verbatim>\<open>d.setMinutes(d.getMinutes() + n)\<close>.\<close>

definition addDays :: "instant \<Rightarrow> int \<Rightarrow> instant" where
  "addDays t n = t + n * msPerDay"

definition addMinutes :: "instant \<Rightarrow> int \<Rightarrow> instant" where
  "addMinutes t n = t + n * msPerMinute"

section \<open>Data model (src/types/index.ts)\<close>

record TimeSlot =
  slot_start :: instant
  slot_end :: instant
  available :: bool
  score :: "int option"

record DateRange =
  range_start :: instant
  range_end :: instant

record BusyTime =
  busy_start :: instant
  busy_end :: instant

text \<open>The shape of \<^verbatim>\<open>defaultBusinessHours\<close> and of \<^verbatim>\<open>preferredTimes\<close>.\<close>

record BusinessHours =
  bh_start :: string
  bh_end :: string
  daysOfWeek :: "int list"

record WorkingHours =
  wh_start :: string
  wh_end :: string

record SchedulingPreferences =
  workingHours :: WorkingHours
  workingDays :: "int list"
  bufferMinutes :: int
  timezone :: string
  preferredTimes :: "BusinessHours option"
  preferredDays :: "int list option"

record Leader =
  leader_id :: int
  leader_name :: string
  leader_role :: string
  calendarId :: string
  leader_email :: string
  isActive :: bool

record AppointmentType =
  type_id :: int
  type_name :: string
  durationMinutes :: int
  template :: string
  color :: string

text \<open>
  The errors of the specification's taxonomy. The service has no \<^verbatim>\<open>throw\<close> of its own:
  the only failure it can end with is the one the busy-time lookup raised.
\<close>

datatype error = CalendarLookupError | InvalidRangeError

text \<open>
  \<^verbatim>\<open>GoogleCalendarService.getFreeBusy(calendarId, start, end)\<close>, awaited by the service
  for an array of busy intervals. It is a network call; the model takes it as a
  parameter that yields the intervals or the error it threw.
\<close>

type_synonym BusyTimeSource = "string \<Rightarrow> instant \<Rightarrow> instant \<Rightarrow> error + BusyTime list"

section \<open>Reading the \<^verbatim>\<open>HH:mm\<close> strings\<close>

text \<open>\<^verbatim>\<open>s.split(':')\<close>.\<close>

fun splitOn :: "char \<Rightarrow> string \<Rightarrow> string list" where
  "splitOn c [] = [[]]"
| "splitOn c (x # xs) =
     (if x = c then [] # splitOn c xs
      else (case splitOn c xs of f # fs \<Rightarrow> (x # f) # fs | [] \<Rightarrow> [[x]]))"

definition isDigit :: "char \<Rightarrow> bool" where
  "isDigit c = (48 \<le> (of_char c :: nat) \<and> (of_char c :: nat) \<le> 57)"

definition digitValue :: "char \<Rightarrow> int" where
  "digitValue c = int (of_char c) - 48"

text \<open>
  \<^verbatim>\<open>Number(field)\<close> on a field of decimal digits, the fields of the \<^verbatim>\<open>HH:mm\<close> format.
  Any other field is \<open>None\<close>, which stands for \<^verbatim>\<open>NaN\<close> (JavaScript also reads blank
  fields, signs, fractions, exponents and other radixes, which the format excludes).
\<close>

definition toNumber :: "string \<Rightarrow> int option" where
  "toNumber s =
     (if s \<noteq> [] \<and> list_all isDigit s
      then Some (foldl (\<lambda>n c. 10 * n + digitValue c) 0 s) else None)"

text \<open>\<^verbatim>\<open>const [hour, minute] = s.split(':').map(Number)\<close>; \<open>None\<close> when either is
  \<^verbatim>\<open>NaN\<close> or \<^verbatim>\<open>undefined\<close>.\<close>

definition parseTime :: "string \<Rightarrow> (int \<times> int) option" where
  "parseTime s =
     (case map toNumber (splitOn CHR '':'' s) of
        Some h # Some m # _ \<Rightarrow> Some (h, m)
      | _ \<Rightarrow> None)"

section \<open>SchedulingService\<close>

definition defaultBusinessHours :: BusinessHours where
  "defaultBusinessHours =
     \<lparr>bh_start = ''09:00'', bh_end = ''21:00'', daysOfWeek = [0, 1, 2, 3, 4, 5, 6]\<rparr>"

definition defaultBufferTime :: int where
  "defaultBufferTime = 15"

subsection \<open>generatePossibleSlots\<close>

text \<open>
  The inner \<^verbatim>\<open>while\<close> loop of one day. It pushes onto the shared array \<open>slots\<close> and
  moves \<open>slotStart\<close> on by \<open>slotDuration\<close> minutes; it does not return when that pitch
  is not positive and the first slot fits, which is the value \<open>None\<close>.
\<close>

partial_function (option) slotLoop ::
  "TimeSlot list \<Rightarrow> instant \<Rightarrow> instant \<Rightarrow> int \<Rightarrow> int \<Rightarrow> TimeSlot list option" where
  "slotLoop slots slotStart dayEnd duration slotDuration =
     (if slotStart + duration * 60 * 1000 \<le> dayEnd
      then slotLoop
             (slots @ [\<lparr>slot_start = slotStart,
                        slot_end = slotStart + duration * 60 * 1000,
                        available = True, score = None\<rparr>])
             (addMinutes slotStart slotDuration) dayEnd duration slotDuration
      else Some slots)"

declare slotLoop.simps [code]

text \<open>
  The body of the outer loop for the day \<open>currentDate\<close>. With an unreadable hour
  both dates are invalid, the comparison of the inner loop is false and the day adds
  nothing.
\<close>

definition daySlots ::
  "TimeSlot list \<Rightarrow> instant \<Rightarrow> int \<Rightarrow> int \<Rightarrow> BusinessHours \<Rightarrow> TimeSlot list option" where
  "daySlots slots currentDate duration slotDuration businessHours =
     (if getDay currentDate \<in> set (daysOfWeek businessHours)
      then (case (parseTime (bh_start businessHours), parseTime (bh_end businessHours)) of
              (Some (startHour, startMinute), Some (endHour, endMinute)) \<Rightarrow>
                slotLoop slots
                  (setHours currentDate startHour startMinute)
                  (setHours currentDate endHour endMinute)
                  duration slotDuration
            | _ \<Rightarrow> Some slots)
      else Some slots)"

function dayLoop ::
  "TimeSlot list \<Rightarrow> instant \<Rightarrow> DateRange \<Rightarrow> int \<Rightarrow> int \<Rightarrow> BusinessHours
     \<Rightarrow> TimeSlot list option" where
  "dayLoop slots currentDate dateRange duration slotDuration businessHours =
     (if currentDate \<le> range_end dateRange
      then (case daySlots slots currentDate duration slotDuration businessHours of
              None \<Rightarrow> None
            | Some slots' \<Rightarrow>
                dayLoop slots' (addDays currentDate 1) dateRange duration slotDuration
                  businessHours)
      else Some slots)"
  by pat_completeness auto
termination
  by (relation "measure (\<lambda>(slots, currentDate, dateRange, rest).
                  nat (range_end dateRange - currentDate + 1))")
     (auto simp: addDays_def msPerDay_def)

declare dayLoop.simps [simp del]

definition generatePossibleSlots ::
  "DateRange \<Rightarrow> int \<Rightarrow> int \<Rightarrow> BusinessHours \<Rightarrow> TimeSlot list option" where
  "generatePossibleSlots dateRange duration bufferTime businessHours =
     dayLoop [] (setHours (range_start dateRange) 0 0) dateRange duration
       (duration + bufferTime) businessHours"

subsection \<open>isSlotBusy\<close>

definition isSlotBusy :: "TimeSlot \<Rightarrow> BusyTime list \<Rightarrow> int \<Rightarrow> bool" where
  "isSlotBusy slot busyTimes bufferTime =
     (let slotStartWithBuffer = slot_start slot - bufferTime * 60 * 1000;
          slotEndWithBuffer = slot_end slot + bufferTime * 60 * 1000
      in list_ex (\<lambda>busy.
           let busyStart = busy_start busy; busyEnd = busy_end busy
           in (slotStartWithBuffer \<ge> busyStart \<and> slotStartWithBuffer < busyEnd) \<or>
              (slotEndWithBuffer > busyStart \<and> slotEndWithBuffer \<le> busyEnd) \<or>
              (slotStartWithBuffer \<le> busyStart \<and> slotEndWithBuffer \<ge> busyEnd))
         busyTimes)"

subsection \<open>findAvailableSlots\<close>

text \<open>\<^verbatim>\<open>preferences?.bufferMinutes || this.defaultBufferTime\<close>: the operator takes the
  default for every falsy left side, and 0 is falsy.\<close>

definition bufferTimeOf :: "SchedulingPreferences option \<Rightarrow> int" where
  "bufferTimeOf preferences =
     (case preferences of
        None \<Rightarrow> defaultBufferTime
      | Some p \<Rightarrow> if bufferMinutes p = 0 then defaultBufferTime else bufferMinutes p)"

text \<open>\<^verbatim>\<open>preferences?.preferredTimes || this.defaultBusinessHours\<close>.\<close>

definition businessHoursOf :: "SchedulingPreferences option \<Rightarrow> BusinessHours" where
  "businessHoursOf preferences =
     (case preferences of
        None \<Rightarrow> defaultBusinessHours
      | Some p \<Rightarrow> (case preferredTimes p of
                    None \<Rightarrow> defaultBusinessHours
                  | Some preferred \<Rightarrow> preferred))"

text \<open>The outer \<open>option\<close> is \<open>None\<close> when slot generation does not return.\<close>

definition findAvailableSlots ::
  "BusyTimeSource \<Rightarrow> int \<Rightarrow> Leader \<Rightarrow> int \<Rightarrow> DateRange \<Rightarrow> SchedulingPreferences option
     \<Rightarrow> (error + TimeSlot list) option" where
  "findAvailableSlots getFreeBusy leaderId leader duration dateRange preferences =
     (let bufferTime = bufferTimeOf preferences;
          businessHours = businessHoursOf preferences
      in case getFreeBusy (calendarId leader) (range_start dateRange) (range_end dateRange) of
           Inl e \<Rightarrow> Some (Inl e)
         | Inr busyTimes \<Rightarrow>
             (case generatePossibleSlots dateRange duration bufferTime businessHours of
                None \<Rightarrow> None
              | Some allSlots \<Rightarrow>
                  Some (Inr (filter (\<lambda>slot. \<not> isSlotBusy slot busyTimes bufferTime)
                               allSlots))))"

subsection \<open>calculateSlotScore\<close>

text \<open>\<open>now\<close> is the clock reading \<^verbatim>\<open>new Date()\<close> of the call.\<close>

definition calculateSlotScore ::
  "TimeSlot \<Rightarrow> instant \<Rightarrow> SchedulingPreferences option \<Rightarrow> int" where
  "calculateSlotScore slot now preferences =
     (let score0 = 100;
          slotHour = getHours (slot_start slot);
          slotDay = getDay (slot_start slot);
          score1 = (if slotHour \<ge> 18 \<and> slotHour < 20 \<and> slotDay \<ge> 1 \<and> slotDay \<le> 5
                    then score0 + 30 else score0);
          score2 = (if slotDay = 0 \<and> slotHour \<ge> 14 \<and> slotHour < 17
                    then score1 + 25 else score1);
          score3 = (if slotHour < 10 \<or> slotHour \<ge> 20 then score2 - 20 else score2);
          daysFromNow = (slot_start slot - now) div (1000 * 60 * 60 * 24);
          score4 = score3 - daysFromNow * 2;
          score5 = (case preferences of
                      None \<Rightarrow> score4
                    | Some p \<Rightarrow>
                        (case preferredDays p of
                           None \<Rightarrow> score4
                         | Some days \<Rightarrow> if slotDay \<in> set days then score4 + 20 else score4))
      in max 0 score5)"

subsection \<open>suggestOptimalTimes\<close>

text \<open>
  \<open>clock n\<close> is the \<open>n\<close>-th reading of \<^verbatim>\<open>new Date()\<close> in one call: readings 0 and 1
  make the date range, reading \<open>2 + i\<close> scores the \<open>i\<close>-th available slot.
\<close>

definition withScore :: "TimeSlot \<Rightarrow> int \<Rightarrow> TimeSlot" where
  "withScore slot s = slot\<lparr>score := Some s\<rparr>"

definition scoreSlots ::
  "(nat \<Rightarrow> instant) \<Rightarrow> SchedulingPreferences option \<Rightarrow> TimeSlot list \<Rightarrow> TimeSlot list" where
  "scoreSlots clock preferences availableSlots =
     map (\<lambda>(i, slot). withScore slot (calculateSlotScore slot (clock (2 + i)) preferences))
       (enumerate 0 availableSlots)"

definition scoreValue :: "TimeSlot \<Rightarrow> int" where
  "scoreValue slot = (case score slot of Some s \<Rightarrow> s | None \<Rightarrow> 0)"

text \<open>
  \<^verbatim>\<open>.sort((a, b) => b.score - a.score)\<close>: \<^verbatim>\<open>Array.prototype.sort\<close> is a stable sort
  (ECMAScript 2019), here by descending score; every element carries a score.
\<close>

definition sortByScore :: "TimeSlot list \<Rightarrow> TimeSlot list" where
  "sortByScore scoredSlots = sort_key (\<lambda>slot. - scoreValue slot) scoredSlots"

text \<open>\<^verbatim>\<open>({ score, ...slot }) => slot\<close>: the slot without its score.\<close>

definition stripScore :: "TimeSlot \<Rightarrow> TimeSlot" where
  "stripScore slot = slot\<lparr>score := None\<rparr>"

text \<open>The ranked, still scored slots: the value the final \<^verbatim>\<open>map\<close> is applied to.\<close>

definition rankedSlots ::
  "(nat \<Rightarrow> instant) \<Rightarrow> SchedulingPreferences option \<Rightarrow> TimeSlot list \<Rightarrow> TimeSlot list" where
  "rankedSlots clock preferences availableSlots =
     take 10 (sortByScore (scoreSlots clock preferences availableSlots))"

definition suggestOptimalTimes ::
  "BusyTimeSource \<Rightarrow> (nat \<Rightarrow> instant) \<Rightarrow> int \<Rightarrow> int \<Rightarrow> Leader \<Rightarrow> int \<Rightarrow> AppointmentType
     \<Rightarrow> SchedulingPreferences option \<Rightarrow> (error + TimeSlot list) option" where
  "suggestOptimalTimes getFreeBusy clock contactId leaderId leader typeId appointmentType
       preferences =
     (let startDate = clock 0;
          endDate = addDays (clock 1) 14;
          dateRange = \<lparr>range_start = startDate, range_end = endDate\<rparr>
      in case findAvailableSlots getFreeBusy leaderId leader
                (durationMinutes appointmentType) dateRange preferences of
           None \<Rightarrow> None
         | Some (Inl e) \<Rightarrow> Some (Inl e)
         | Some (Inr availableSlots) \<Rightarrow>
             Some (Inr (map stripScore (rankedSlots clock preferences availableSlots))))"

subsection \<open>isSlotAvailable and getNextAvailableSlot\<close>

text \<open>The optional parameter \<^verbatim>\<open>bufferTime: number = this.defaultBufferTime\<close>: the
  default stands in only when the argument is left out.\<close>

definition isSlotAvailable ::
  "BusyTimeSource \<Rightarrow> Leader \<Rightarrow> instant \<Rightarrow> int \<Rightarrow> int option \<Rightarrow> error + bool" where
  "isSlotAvailable getFreeBusy leader start duration bufferArg =
     (let bufferTime = (case bufferArg of None \<Rightarrow> defaultBufferTime | Some b \<Rightarrow> b);
          end' = start + duration * 60 * 1000;
          checkStart = start - bufferTime * 60 * 1000;
          checkEnd = end' + bufferTime * 60 * 1000
      in case getFreeBusy (calendarId leader) checkStart checkEnd of
           Inl e \<Rightarrow> Inl e
         | Inr busyTimes \<Rightarrow> Inr (length busyTimes = 0))"

definition getNextAvailableSlot ::
  "BusyTimeSource \<Rightarrow> (nat \<Rightarrow> instant) \<Rightarrow> Leader \<Rightarrow> int \<Rightarrow> SchedulingPreferences option
     \<Rightarrow> (error + TimeSlot option) option" where
  "getNextAvailableSlot getFreeBusy clock leader duration preferences =
     (let startDate = clock 0;
          endDate = addDays (clock 1) 30
      in case findAvailableSlots getFreeBusy (leader_id leader) leader duration
                \<lparr>range_start = startDate, range_end = endDate\<rparr> preferences of
           None \<Rightarrow> None
         | Some (Inl e) \<Rightarrow> Some (Inl e)
         | Some (Inr slots) \<Rightarrow>
             Some (Inr (if length slots > 0 then Some (hd slots) else None)))"

section \<open>Properties and example inputs\<close>

text \<open>
  What one run of the inner loop adds to the array: nothing when the first slot does
  not fit; otherwise slots of the requested length from \<open>slotStart\<close> on, one pitch
  apart, each ending by \<open>dayEnd\<close>, and the pitch is positive.
\<close>

definition daySlotsOk :: "instant \<Rightarrow> instant \<Rightarrow> int \<Rightarrow> int \<Rightarrow> TimeSlot list \<Rightarrow> bool" where
  "daySlotsOk slotStart dayEnd duration slotDuration new =
     ((new \<noteq> [] \<longrightarrow> 0 < slotDuration \<and> slot_start (hd new) = slotStart) \<and>
      (slotStart + duration * 60 * 1000 \<le> dayEnd \<longrightarrow> new \<noteq> []) \<and>
      (\<forall>x \<in> set new. slotStart \<le> slot_start x \<and>
          slot_end x = slot_start x + duration * 60 * 1000 \<and>
          slot_end x \<le> dayEnd \<and> available x \<and> score x = None) \<and>
      sorted_wrt (\<lambda>a b. slot_start a < slot_start b) new \<and>
      (\<forall>i. Suc i < length new \<longrightarrow>
          slot_start (new ! Suc i) = slot_start (new ! i) + slotDuration * msPerMinute))"

text \<open>A slot that the loop of the day \<open>currentDate\<close> can have produced.\<close>

definition generatedOn :: "BusinessHours \<Rightarrow> int \<Rightarrow> instant \<Rightarrow> TimeSlot \<Rightarrow> bool" where
  "generatedOn businessHours duration currentDate slot =
     (getDay currentDate \<in> set (daysOfWeek businessHours) \<and>
      (case (parseTime (bh_start businessHours), parseTime (bh_end businessHours)) of
         (Some (startHour, startMinute), Some (endHour, endMinute)) \<Rightarrow>
            setHours currentDate startHour startMinute \<le> slot_start slot \<and>
            slot_end slot \<le> setHours currentDate endHour endMinute
       | _ \<Rightarrow> False) \<and>
      slot_end slot = slot_start slot + duration * 60 * 1000 \<and>
      available slot \<and> score slot = None)"

text \<open>A string that reads as a time of day: an hour below 24 and a minute below 60.\<close>

definition timeOfDay :: "string \<Rightarrow> bool" where
  "timeOfDay s = (case parseTime s of Some (h, m) \<Rightarrow> h < 24 \<and> m < 60 | None \<Rightarrow> False)"

text \<open>
  A window from \<open>windowStart\<close> to \<open>windowEnd\<close> and a busy interval, taken as
  closed-open, overlap when they share more than an instant.
\<close>

definition overlaps :: "instant \<Rightarrow> instant \<Rightarrow> BusyTime \<Rightarrow> bool" where
  "overlaps windowStart windowEnd busy =
     (windowStart < busy_end busy \<and> busy_start busy < windowEnd)"

text \<open>
  Modelled from the spec: BusyTimeSource, the external collaborator that "given a
  calendar identifier and a time range, returns the set of busy intervals on that
  calendar". The calendar is its list of busy intervals; a query yields those that reach
  into the queried range. It stands in for the network call in the worked examples.
\<close>

definition calendarSource :: "BusyTime list \<Rightarrow> BusyTimeSource" where
  "calendarSource calendar calId rangeStart rangeEnd =
     Inr (filter (\<lambda>b. busy_start b < rangeEnd \<and> rangeStart < busy_end b) calendar)"

text \<open>The instant \<open>h:m\<close> of the day numbered \<open>day\<close> from 1970-01-01; day 3 is Sunday
  1970-01-04 and day 4 is Monday 1970-01-05.\<close>

definition localTime :: "int \<Rightarrow> int \<Rightarrow> int \<Rightarrow> instant" where
  "localTime day h m = day * msPerDay + h * msPerHour + m * msPerMinute"

definition exampleLeader :: Leader where
  "exampleLeader = \<lparr>leader_id = 1, leader_name = ''Bishop'', leader_role = ''bishop'',
     calendarId = ''primary'', leader_email = ''bishop@example.org'', isActive = True\<rparr>"

text \<open>The preferences of Scenario A.\<close>

definition scenarioA :: SchedulingPreferences where
  "scenarioA = \<lparr>workingHours = \<lparr>wh_start = ''09:00'', wh_end = ''17:00''\<rparr>,
     workingDays = [1, 2, 3, 4, 5], bufferMinutes = 0, timezone = ''UTC'',
     preferredTimes = None, preferredDays = None\<rparr>"

text \<open>Preferences whose preferred times are Mondays from 09:00 to 21:00.\<close>

definition mondaysOnly :: SchedulingPreferences where
  "mondaysOnly = \<lparr>workingHours = \<lparr>wh_start = ''09:00'', wh_end = ''17:00''\<rparr>,
     workingDays = [1, 2, 3, 4, 5], bufferMinutes = 15, timezone = ''UTC'',
     preferredTimes = Some \<lparr>bh_start = ''09:00'', bh_end = ''21:00'', daysOfWeek = [1]\<rparr>,
     preferredDays = None\<rparr>"

text \<open>A clock that reads \<open>t\<close> at every reading of one call.\<close>

definition fixedClock :: "instant \<Rightarrow> nat \<Rightarrow> instant" where
  "fixedClock t n = t"

definition halfDayMeeting :: AppointmentType where
  "halfDayMeeting = \<lparr>type_id = 1, type_name = ''Conference'', durationMinutes = 720,
     template = ''Can you meet with {leader}?'', color = ''blue''\<rparr>"

text \<open>The slot from 09:00 to 21:00 of the day numbered \<open>day\<close>.\<close>

definition wholeDaySlot :: "int \<Rightarrow> TimeSlot" where
  "wholeDaySlot day = \<lparr>slot_start = localTime day 9 0, slot_end = localTime day 21 0,
     available = True, score = None\<rparr>"

definition hourMeeting :: AppointmentType where
  "hourMeeting = \<lparr>type_id = 2, type_name = ''Generic Meeting'', durationMinutes = 60,
     template = ''Can you meet with {leader}?'', color = ''green''\<rparr>"

text \<open>The slot of 60 minutes that starts at \<open>h:m\<close> of the day numbered \<open>day\<close>.\<close>

definition meetingAt :: "int \<Rightarrow> int \<Rightarrow> int \<Rightarrow> TimeSlot" where
  "meetingAt day h m = \<lparr>slot_start = localTime day h m,
     slot_end = localTime day h m + 60 * msPerMinute, available = True, score = None\<rparr>"


section \<open>The inner loop\<close>

lemma daySlotsOk_Cons:
  assumes ok: "daySlotsOk (addMinutes s p) e d p new'"
    and fits: "s + d * 60 * 1000 \<le> e"
  shows "daySlotsOk s e d p
           (\<lparr>slot_start = s, slot_end = s + d * 60 * 1000, available = True, score = None\<rparr> # new')"
proof -
  have pos: "0 < p"
  proof (rule ccontr)
    assume "\<not> 0 < p"
    then have "addMinutes s p + d * 60 * 1000 \<le> e"
      using fits by (simp add: addMinutes_def msPerMinute_def)
    with ok have "0 < p" unfolding daySlotsOk_def by blast
    with \<open>\<not> 0 < p\<close> show False by simp
  qed
  then have step: "s < addMinutes s p" by (simp add: addMinutes_def msPerMinute_def)
  have all: "\<forall>x \<in> set new'. addMinutes s p \<le> slot_start x \<and>
          slot_end x = slot_start x + d * 60 * 1000 \<and>
          slot_end x \<le> e \<and> available x \<and> score x = None"
    using ok unfolding daySlotsOk_def by blast
  have srt: "sorted_wrt (\<lambda>a b. slot_start a < slot_start b) new'"
    using ok unfolding daySlotsOk_def by blast
  have hd': "new' \<noteq> [] \<longrightarrow> slot_start (hd new') = addMinutes s p"
    using ok unfolding daySlotsOk_def by blast
  have nxt: "\<forall>i. Suc i < length new' \<longrightarrow>
          slot_start (new' ! Suc i) = slot_start (new' ! i) + p * msPerMinute"
    using ok unfolding daySlotsOk_def by blast
  have nxt': "Suc i < Suc (length new') \<Longrightarrow>
          slot_start ((\<lparr>slot_start = s, slot_end = s + d * 60 * 1000, available = True, score = None\<rparr> # new') ! Suc i) =
          slot_start ((\<lparr>slot_start = s, slot_end = s + d * 60 * 1000, available = True, score = None\<rparr> # new') ! i) + p * msPerMinute" for i
  proof (cases i)
    case 0
    assume "Suc i < Suc (length new')"
    with 0 have "new' \<noteq> []" by auto
    with hd' have "slot_start (new' ! 0) = addMinutes s p" by (simp add: hd_conv_nth)
    with 0 show ?thesis by (simp add: addMinutes_def)
  next
    case (Suc j)
    assume "Suc i < Suc (length new')"
    with Suc nxt show ?thesis by simp
  qed
  show ?thesis
    unfolding daySlotsOk_def
    using pos step all srt nxt' fits by (auto simp del: nth_Cons_Suc)
qed

lemma slotLoop_result:
  assumes "slotLoop slots slotStart dayEnd duration slotDuration = Some r"
  shows "\<exists>new. r = slots @ new \<and> daySlotsOk slotStart dayEnd duration slotDuration new"
proof (rule slotLoop.raw_induct[where P = "\<lambda>slots s e d p r. \<exists>new. r = slots @ new \<and> daySlotsOk s e d p new", OF _ assms])
  fix f slots s e d p r
  assume IH: "\<And>slots s e d p r. f slots s e d p = Some r \<Longrightarrow> \<exists>new. r = slots @ new \<and> daySlotsOk s e d p new"
    and eq: "(if s + d * 60 * 1000 \<le> e
      then f (slots @ [\<lparr>slot_start = s, slot_end = s + d * 60 * 1000, available = True, score = None\<rparr>])
             (addMinutes s p) e d p
      else Some slots) = Some r"
  show "\<exists>new. r = slots @ new \<and> daySlotsOk s e d p new"
  proof (cases "s + d * 60 * 1000 \<le> e")
    case False
    with eq have "r = slots" by simp
    with False show ?thesis by (simp add: daySlotsOk_def)
  next
    case True
    let ?sl = "\<lparr>slot_start = s, slot_end = s + d * 60 * 1000, available = True, score = None\<rparr>"
    from True eq have rec: "f (slots @ [?sl]) (addMinutes s p) e d p = Some r" by simp
    from IH[OF rec] obtain new' where
      r: "r = (slots @ [?sl]) @ new'" and ok: "daySlotsOk (addMinutes s p) e d p new'"
      by blast
    from daySlotsOk_Cons[OF ok True] r show ?thesis by simp
  qed
qed

lemma slotLoop_returns:
  assumes "0 < slotDuration"
  shows "\<exists>r. slotLoop slots slotStart dayEnd duration slotDuration = Some r"
  using assms
proof (induction "nat (dayEnd - duration * 60 * 1000 - slotStart + 1)" arbitrary: slots slotStart rule: less_induct)
  case less
  show ?case
  proof (cases "slotStart + duration * 60 * 1000 \<le> dayEnd")
    case False
    then show ?thesis by (subst slotLoop.simps) simp
  next
    case True
    have "nat (dayEnd - duration * 60 * 1000 - addMinutes slotStart slotDuration + 1)
            < nat (dayEnd - duration * 60 * 1000 - slotStart + 1)"
      using True less.prems by (simp add: addMinutes_def msPerMinute_def)
    from less.hyps[OF this less.prems] True show ?thesis
      by (subst slotLoop.simps) simp
  qed
qed

section \<open>Hours and days\<close>

lemma foldl_digits_nonneg:
  "0 \<le> a \<Longrightarrow> list_all isDigit s \<Longrightarrow> 0 \<le> foldl (\<lambda>n c. 10 * n + digitValue c) a s"
proof (induction s arbitrary: a)
  case Nil
  then show ?case by simp
next
  case (Cons c s)
  from Cons.prems have "0 \<le> 10 * a + digitValue c"
    by (simp add: isDigit_def digitValue_def)
  with Cons show ?case by simp
qed

lemma toNumber_nonneg: "toNumber s = Some n \<Longrightarrow> 0 \<le> n"
  using foldl_digits_nonneg[of 0 s] by (auto simp: toNumber_def split: if_splits)

lemma parseTime_nonneg: "parseTime s = Some (h, m) \<Longrightarrow> 0 \<le> h \<and> 0 \<le> m"
  by (auto simp: parseTime_def split: list.splits option.splits dest: toNumber_nonneg)

lemma startOfDay_addDays: "startOfDay (addDays t 1) = startOfDay t + msPerDay"
  by (simp add: startOfDay_def addDays_def)



section \<open>Slot generation\<close>

lemma daySlots_result:
  assumes "daySlots slots currentDate duration slotDuration businessHours = Some r"
  shows "\<exists>new. r = slots @ new \<and>
           (\<forall>x \<in> set new. generatedOn businessHours duration currentDate x) \<and>
           sorted_wrt (\<lambda>a b. slot_start a < slot_start b) new"
proof (cases "getDay currentDate \<in> set (daysOfWeek businessHours)")
  case False
  with assms have "r = slots @ []" by (simp add: daySlots_def)
  then show ?thesis by force
next
  case inDays: True
  show ?thesis
  proof (cases "parseTime (bh_start businessHours)")
    case None
    with assms inDays have "r = slots @ []" by (simp add: daySlots_def)
    then show ?thesis by force
  next
    case (Some a)
    then obtain sh sm where s: "parseTime (bh_start businessHours) = Some (sh, sm)"
      by (cases a) simp
    show ?thesis
    proof (cases "parseTime (bh_end businessHours)")
      case None
      with assms inDays s have "r = slots @ []" by (simp add: daySlots_def)
      then show ?thesis by force
    next
      case (Some b)
      then obtain eh em where e: "parseTime (bh_end businessHours) = Some (eh, em)"
        by (cases b) simp
      from assms inDays s e
      have "slotLoop slots (setHours currentDate sh sm) (setHours currentDate eh em)
              duration slotDuration = Some r"
        by (simp add: daySlots_def)
      from slotLoop_result[OF this] obtain new where
        r: "r = slots @ new" and
        ok: "daySlotsOk (setHours currentDate sh sm) (setHours currentDate eh em)
               duration slotDuration new"
        by blast
      have "\<forall>x \<in> set new. generatedOn businessHours duration currentDate x"
        using ok inDays s e unfolding daySlotsOk_def generatedOn_def by auto
      moreover have "sorted_wrt (\<lambda>a b. slot_start a < slot_start b) new"
        using ok unfolding daySlotsOk_def by blast
      ultimately show ?thesis using r by blast
    qed
  qed
qed

lemma daySlots_returns:
  assumes "0 < slotDuration"
  shows "\<exists>r. daySlots slots currentDate duration slotDuration businessHours = Some r"
  using slotLoop_returns[OF assms]
  by (auto simp: daySlots_def split: option.splits prod.splits)

lemma dayLoop_returns:
  assumes "0 < slotDuration"
  shows "\<exists>r. dayLoop slots currentDate dateRange duration slotDuration businessHours = Some r"
  using assms
proof (induction slots currentDate dateRange duration slotDuration businessHours
        rule: dayLoop.induct)
  case (1 slots currentDate dateRange duration slotDuration businessHours)
  show ?case
  proof (cases "currentDate \<le> range_end dateRange")
    case False
    then show ?thesis by (subst dayLoop.simps) simp
  next
    case True
    from daySlots_returns[OF 1(2)] obtain s' where
      d: "daySlots slots currentDate duration slotDuration businessHours = Some s'"
      by blast
    from 1(1)[OF True d 1(2)] True d show ?thesis
      by (subst dayLoop.simps) simp
  qed
qed

lemma generatedOn_in_day:
  assumes g: "generatedOn businessHours duration c x"
    and d: "0 \<le> duration"
    and t: "timeOfDay (bh_end businessHours)"
  shows "startOfDay c \<le> slot_start x" and "slot_start x < startOfDay c + msPerDay"
proof -
  from g obtain sh sm eh em where
    s: "parseTime (bh_start businessHours) = Some (sh, sm)" and
    e: "parseTime (bh_end businessHours) = Some (eh, em)" and
    lo: "setHours c sh sm \<le> slot_start x" and
    hi: "slot_end x \<le> setHours c eh em" and
    len: "slot_end x = slot_start x + duration * 60 * 1000"
    by (auto simp: generatedOn_def split: option.splits prod.splits)
  from parseTime_nonneg[OF s] have "0 \<le> sh * msPerHour + sm * msPerMinute"
    by (simp add: msPerHour_def msPerMinute_def)
  with lo show "startOfDay c \<le> slot_start x" by (simp add: setHours_def)
  from t e have "eh < 24" "em < 60" by (simp_all add: timeOfDay_def)
  then have "eh * msPerHour + em * msPerMinute < msPerDay"
    by (simp add: msPerHour_def msPerMinute_def msPerDay_def)
  moreover from d len have "slot_start x \<le> slot_end x" by simp
  ultimately show "slot_start x < startOfDay c + msPerDay"
    using hi by (simp add: setHours_def)
qed

lemma dayLoop_result:
  assumes "dayLoop slots currentDate dateRange duration slotDuration businessHours = Some r"
  shows "\<exists>new. r = slots @ new \<and>
           (\<forall>x \<in> set new. \<exists>c. generatedOn businessHours duration c x) \<and>
           (0 \<le> duration \<and> timeOfDay (bh_end businessHours) \<longrightarrow>
              sorted_wrt (\<lambda>a b. slot_start a < slot_start b) new \<and>
              (\<forall>x \<in> set new. startOfDay currentDate \<le> slot_start x))"
  using assms
proof (induction slots currentDate dateRange duration slotDuration businessHours
        arbitrary: r rule: dayLoop.induct)
  case (1 slots currentDate dateRange duration slotDuration businessHours)
  show ?case
  proof (cases "currentDate \<le> range_end dateRange")
    case False
    with 1(2) have "r = slots @ []" by (subst (asm) dayLoop.simps) simp
    then show ?thesis by force
  next
    case True
    with 1(2) obtain s' where
      day: "daySlots slots currentDate duration slotDuration businessHours = Some s'" and
      rest: "dayLoop s' (addDays currentDate 1) dateRange duration slotDuration
               businessHours = Some r"
      by (subst (asm) dayLoop.simps) (auto split: option.splits)
    from daySlots_result[OF day] obtain new1 where
      s': "s' = slots @ new1" and
      g1: "\<forall>x \<in> set new1. generatedOn businessHours duration currentDate x" and
      srt1: "sorted_wrt (\<lambda>a b. slot_start a < slot_start b) new1"
      by blast
    from 1(1)[OF True day rest] obtain new2 where
      r: "r = s' @ new2" and
      g2: "\<forall>x \<in> set new2. \<exists>c. generatedOn businessHours duration c x" and
      chrono2: "0 \<le> duration \<and> timeOfDay (bh_end businessHours) \<longrightarrow>
              sorted_wrt (\<lambda>a b. slot_start a < slot_start b) new2 \<and>
              (\<forall>x \<in> set new2. startOfDay (addDays currentDate 1) \<le> slot_start x)"
      by blast
    have eq: "r = slots @ (new1 @ new2)" using r s' by simp
    have gen: "\<forall>x \<in> set (new1 @ new2). \<exists>c. generatedOn businessHours duration c x"
      using g1 g2 by auto
    have chrono: "sorted_wrt (\<lambda>a b. slot_start a < slot_start b) (new1 @ new2) \<and>
              (\<forall>x \<in> set (new1 @ new2). startOfDay currentDate \<le> slot_start x)"
      if d: "0 \<le> duration" and t: "timeOfDay (bh_end businessHours)"
    proof -
      have lo1: "startOfDay currentDate \<le> slot_start x"
        and hi1: "slot_start x < startOfDay currentDate + msPerDay" if "x \<in> set new1" for x
        using generatedOn_in_day[OF _ d t] g1 that by blast+
      have srt2: "sorted_wrt (\<lambda>a b. slot_start a < slot_start b) new2"
        and lo2: "\<forall>x \<in> set new2. startOfDay currentDate + msPerDay \<le> slot_start x"
        using chrono2 d t by (simp_all add: startOfDay_addDays)
      have "\<forall>x \<in> set new1. \<forall>y \<in> set new2. slot_start x < slot_start y"
        using hi1 lo2 by fastforce
      moreover have "\<forall>x \<in> set new2. startOfDay currentDate \<le> slot_start x"
        using lo2 by (fastforce simp: msPerDay_def)
      ultimately show ?thesis
        using srt1 srt2 lo1 by (auto simp: sorted_wrt_append)
    qed
    from eq gen chrono show ?thesis by blast
  qed
qed

section \<open>Scoring and ranking\<close>






lemma slot_start_withScore [simp]: "slot_start (withScore slot s) = slot_start slot"
  by (simp add: withScore_def)



lemma stripScore_withScore: "score slot = None \<Longrightarrow> stripScore (withScore slot s) = slot"
  by (simp add: stripScore_def withScore_def)

lemma strip_scoreSlots:
  assumes "\<forall>x \<in> set xs. score x = None"
  shows "map stripScore (scoreSlots clock preferences xs) = xs"
proof -
  have "map stripScore (scoreSlots clock preferences xs) = map snd (enumerate 0 xs)"
    unfolding scoreSlots_def map_map
  proof (rule map_cong[OF refl])
    fix p assume "p \<in> set (enumerate 0 xs)"
    then have "fst p < length xs \<and> xs ! fst p = snd p" by (simp add: in_set_enumerate_eq)
    then have "snd p \<in> set xs" using nth_mem[of "fst p" xs] by simp
    with assms have "score (snd p) = None" by blast
    then show "(stripScore \<circ> (\<lambda>(i, slot). withScore slot (calculateSlotScore slot (clock (2 + i)) preferences))) p = snd p"
      by (simp add: case_prod_unfold stripScore_withScore)
  qed
  then show ?thesis by simp
qed

lemma mset_ranked:
  assumes "\<forall>x \<in> set xs. score x = None"
  shows "mset (map stripScore (rankedSlots clock preferences xs)) \<subseteq># mset xs"
proof -
  let ?ys = "sortByScore (scoreSlots clock preferences xs)"
  have "mset (take 10 ?ys) \<subseteq># mset ?ys"
    by (metis append_take_drop_id mset_append mset_subset_eq_add_left)
  then have "mset (map stripScore (take 10 ?ys)) \<subseteq># mset (map stripScore ?ys)"
    by (simp add: image_mset_subseteq_mono)
  also have "mset (map stripScore ?ys) = mset (map stripScore (scoreSlots clock preferences xs))"
    by (simp add: sortByScore_def)
  also have "\<dots> = mset xs" by (simp add: strip_scoreSlots[OF assms])
  finally show ?thesis by (simp add: rankedSlots_def)
qed




section \<open>Searching and conflict checks\<close>

lemma generate_result:
  assumes "generatePossibleSlots dateRange duration bufferTime businessHours = Some slots"
  shows "\<forall>x \<in> set slots. \<exists>c. generatedOn businessHours duration c x"
    and "0 \<le> duration \<Longrightarrow> timeOfDay (bh_end businessHours) \<Longrightarrow>
           sorted_wrt (\<lambda>a b. slot_start a < slot_start b) slots"
  using dayLoop_result[OF assms[unfolded generatePossibleSlots_def]] by auto

lemma generate_returns:
  "0 < duration + bufferTime \<Longrightarrow>
   \<exists>slots. generatePossibleSlots dateRange duration bufferTime businessHours = Some slots"
  unfolding generatePossibleSlots_def by (rule dayLoop_returns)

lemma find_result:
  assumes "findAvailableSlots getFreeBusy leaderId leader duration dateRange preferences
             = Some (Inr slots)"
  shows "\<exists>busyTimes allSlots.
           getFreeBusy (calendarId leader) (range_start dateRange) (range_end dateRange)
             = Inr busyTimes \<and>
           generatePossibleSlots dateRange duration (bufferTimeOf preferences)
             (businessHoursOf preferences) = Some allSlots \<and>
           slots = filter (\<lambda>slot. \<not> isSlotBusy slot busyTimes (bufferTimeOf preferences))
                     allSlots"
  using assms
  by (auto simp: findAvailableSlots_def Let_def split: sum.splits option.splits)

lemma find_error:
  "findAvailableSlots getFreeBusy leaderId leader duration dateRange preferences = Some (Inl e)
   \<Longrightarrow> getFreeBusy (calendarId leader) (range_start dateRange) (range_end dateRange) = Inl e"
  by (auto simp: findAvailableSlots_def Let_def split: sum.splits option.splits)

lemma find_returns:
  assumes "getFreeBusy (calendarId leader) (range_start dateRange) (range_end dateRange)
             = Inr busyTimes"
    and "0 < duration + bufferTimeOf preferences"
  shows "\<exists>slots. findAvailableSlots getFreeBusy leaderId leader duration dateRange preferences
           = Some (Inr slots)"
  using generate_returns[OF assms(2), of dateRange "businessHoursOf preferences"] assms(1)
  by (auto simp: findAvailableSlots_def Let_def)

lemma find_generated:
  assumes "findAvailableSlots getFreeBusy leaderId leader duration dateRange preferences
             = Some (Inr slots)"
    and "slot \<in> set slots"
  shows "\<exists>c. generatedOn (businessHoursOf preferences) duration c slot"
  using find_result[OF assms(1)] generate_result(1) assms(2) by fastforce


lemma isSlotBusy_iff:
  "isSlotBusy slot busyTimes bufferTime =
     (\<exists>b \<in> set busyTimes.
        (busy_start b \<le> slot_start slot - bufferTime * 60 * 1000 \<and>
         slot_start slot - bufferTime * 60 * 1000 < busy_end b) \<or>
        (busy_start b < slot_end slot + bufferTime * 60 * 1000 \<and>
         slot_end slot + bufferTime * 60 * 1000 \<le> busy_end b) \<or>
        (slot_start slot - bufferTime * 60 * 1000 \<le> busy_start b \<and>
         busy_end b \<le> slot_end slot + bufferTime * 60 * 1000))"
  by (simp add: isSlotBusy_def Let_def list_ex_iff)

lemma overlap_is_busy:
  assumes "b \<in> set busyTimes"
    and "overlaps (slot_start slot - bufferTime * msPerMinute)
           (slot_end slot + bufferTime * msPerMinute) b"
  shows "isSlotBusy slot busyTimes bufferTime"
  unfolding isSlotBusy_iff
  using assms by (intro bexI[of _ b]) (auto simp: overlaps_def msPerMinute_def)

lemma busy_is_overlap:
  assumes "isSlotBusy slot busyTimes bufferTime"
    and "\<forall>b \<in> set busyTimes. busy_start b < busy_end b"
    and "slot_start slot - bufferTime * msPerMinute < slot_end slot + bufferTime * msPerMinute"
  shows "\<exists>b \<in> set busyTimes. overlaps (slot_start slot - bufferTime * msPerMinute)
           (slot_end slot + bufferTime * msPerMinute) b"
proof -
  from assms(1) obtain b where b: "b \<in> set busyTimes" and
    c: "(busy_start b \<le> slot_start slot - bufferTime * 60 * 1000 \<and>
         slot_start slot - bufferTime * 60 * 1000 < busy_end b) \<or>
        (busy_start b < slot_end slot + bufferTime * 60 * 1000 \<and>
         slot_end slot + bufferTime * 60 * 1000 \<le> busy_end b) \<or>
        (slot_start slot - bufferTime * 60 * 1000 \<le> busy_start b \<and>
         busy_end b \<le> slot_end slot + bufferTime * 60 * 1000)"
    unfolding isSlotBusy_iff by blast
  from assms(2) b have "busy_start b < busy_end b" by blast
  with c assms(3) have "overlaps (slot_start slot - bufferTime * msPerMinute)
           (slot_end slot + bufferTime * msPerMinute) b"
    by (auto simp: overlaps_def msPerMinute_def)
  with b show ?thesis by blast
qed

section \<open>Scenario A and the supplied buffer\<close>

text \<open>
  Claim C1. Scenario A asks for 15-minute slots with a buffer of 0 and one busy interval on
  Monday from 09:00 to 09:15, and expects the first Monday slot at 09:15. The service
  replaces the supplied buffer 0 by the default 15: the slots lie 30 minutes apart, the
  one at 09:00 is busy, and the first slot returned starts at 09:30.
\<close>

theorem scenario_A_first_slot:
  "bufferMinutes scenarioA = 0 \<and> bufferTimeOf (Some scenarioA) = 15 \<and>
   (case findAvailableSlots
           (calendarSource [\<lparr>busy_start = localTime 4 9 0, busy_end = localTime 4 9 15\<rparr>])
           1 exampleLeader 15
           \<lparr>range_start = localTime 4 0 0, range_end = localTime 4 23 59\<rparr>
           (Some scenarioA) of
      Some (Inr (first # rest)) \<Rightarrow>
        getDay (slot_start first) = 1 \<and> slot_start first = localTime 4 9 30 \<and>
        slot_start first \<noteq> localTime 4 9 15
    | _ \<Rightarrow> False)"
  by code_simp

section \<open>The length of a slot\<close>



section \<open>Which days and hours the slots come from\<close>




section \<open>Returned slots and busy intervals\<close>

text \<open>
  Claim C3. No slot that findAvailableSlots returns overlaps, once widened by the buffer
  on both sides, any busy interval that was fetched, in whatever order and with whatever
  repetitions the intervals come. This holds for the buffer the search works with and,
  for a supplied buffer that is not negative, for the supplied one. On busy intervals
  that start before they end and a widened slot of positive length, the three tests of
  isSlotBusy reject exactly the slots that overlap some busy interval; a busy interval
  that contains the whole slot rejects it.
\<close>

theorem returned_slots_clear_of_busy:
  "(findAvailableSlots getFreeBusy leaderId leader duration dateRange preferences
        = Some (Inr slots) \<and>
    getFreeBusy (calendarId leader) (range_start dateRange) (range_end dateRange)
        = Inr fetched \<and>
    slot \<in> set slots \<and> b \<in> set fetched \<longrightarrow>
      \<not> overlaps (slot_start slot - bufferTimeOf preferences * msPerMinute)
           (slot_end slot + bufferTimeOf preferences * msPerMinute) b \<and>
      (\<forall>p. preferences = Some p \<and> 0 \<le> bufferMinutes p \<longrightarrow>
         \<not> overlaps (slot_start slot - bufferMinutes p * msPerMinute)
              (slot_end slot + bufferMinutes p * msPerMinute) b)) \<and>
   ((\<forall>busy \<in> set busyTimes. busy_start busy < busy_end busy) \<and>
    slot_start candidate - bufferTime * msPerMinute
      < slot_end candidate + bufferTime * msPerMinute \<longrightarrow>
      isSlotBusy candidate busyTimes bufferTime =
        (\<exists>busy \<in> set busyTimes.
           overlaps (slot_start candidate - bufferTime * msPerMinute)
             (slot_end candidate + bufferTime * msPerMinute) busy)) \<and>
   (container \<in> set busyTimes \<and> busy_start container \<le> slot_start candidate \<and>
    slot_end candidate \<le> busy_end container \<and>
    slot_start candidate < slot_end candidate \<and> 0 \<le> bufferTime \<longrightarrow>
      isSlotBusy candidate busyTimes bufferTime)"
proof -
  have clear: "\<not> overlaps (slot_start slot - bufferTimeOf preferences * msPerMinute)
           (slot_end slot + bufferTimeOf preferences * msPerMinute) b"
    if f: "findAvailableSlots getFreeBusy leaderId leader duration dateRange preferences
        = Some (Inr slots)"
      and q: "getFreeBusy (calendarId leader) (range_start dateRange) (range_end dateRange)
        = Inr fetched"
      and m: "slot \<in> set slots" "b \<in> set fetched"
  proof -
    from find_result[OF f] q m(1)
    have "\<not> isSlotBusy slot fetched (bufferTimeOf preferences)" by auto
    with overlap_is_busy[OF m(2)] show ?thesis by blast
  qed
  have narrower: "\<not> overlaps (slot_start slot - bufferMinutes p * msPerMinute)
              (slot_end slot + bufferMinutes p * msPerMinute) b"
    if c: "\<not> overlaps (slot_start slot - bufferTimeOf preferences * msPerMinute)
           (slot_end slot + bufferTimeOf preferences * msPerMinute) b"
      and p: "preferences = Some p" "0 \<le> bufferMinutes p" for p
  proof -
    have "bufferMinutes p \<le> bufferTimeOf preferences"
      using p by (simp add: bufferTimeOf_def defaultBufferTime_def)
    then have "bufferMinutes p * msPerMinute \<le> bufferTimeOf preferences * msPerMinute"
      by (simp add: msPerMinute_def)
    with c show ?thesis by (auto simp: overlaps_def)
  qed
  have exact: "isSlotBusy candidate busyTimes bufferTime =
        (\<exists>busy \<in> set busyTimes.
           overlaps (slot_start candidate - bufferTime * msPerMinute)
             (slot_end candidate + bufferTime * msPerMinute) busy)"
    if "\<forall>busy \<in> set busyTimes. busy_start busy < busy_end busy"
      and "slot_start candidate - bufferTime * msPerMinute
             < slot_end candidate + bufferTime * msPerMinute"
    using busy_is_overlap[OF _ that] overlap_is_busy by blast
  have contained: "isSlotBusy candidate busyTimes bufferTime"
    if "container \<in> set busyTimes" and "busy_start container \<le> slot_start candidate"
      and "slot_end candidate \<le> busy_end container"
      and "slot_start candidate < slot_end candidate" and "0 \<le> bufferTime"
  proof -
    from that(5) have "0 \<le> bufferTime * msPerMinute" by (simp add: msPerMinute_def)
    with that(2-4) have "overlaps (slot_start candidate - bufferTime * msPerMinute)
             (slot_end candidate + bufferTime * msPerMinute) container"
      by (simp add: overlaps_def)
    from overlap_is_busy[OF that(1) this] show ?thesis .
  qed
  from clear narrower exact contained show ?thesis by blast
qed

theorem returned_slots_clear_of_busy_witness:
  "findAvailableSlots
      (calendarSource [\<lparr>busy_start = localTime 4 6 0, busy_end = localTime 4 7 0\<rparr>])
      1 exampleLeader 720
      \<lparr>range_start = localTime 4 0 0, range_end = localTime 4 23 59\<rparr> (Some mondaysOnly)
      = Some (Inr [wholeDaySlot 4]) \<and>
   bufferMinutes mondaysOnly = 15 \<and>
   \<not> overlaps (slot_start (wholeDaySlot 4) - 15 * msPerMinute)
        (slot_end (wholeDaySlot 4) + 15 * msPerMinute)
        \<lparr>busy_start = localTime 4 6 0, busy_end = localTime 4 7 0\<rparr> \<and>
   isSlotBusy (wholeDaySlot 4)
      [\<lparr>busy_start = localTime 4 8 0, busy_end = localTime 4 22 0\<rparr>] 15 \<and>
   overlaps (slot_start (wholeDaySlot 4) - 15 * msPerMinute)
      (slot_end (wholeDaySlot 4) + 15 * msPerMinute)
      \<lparr>busy_start = localTime 4 8 0, busy_end = localTime 4 22 0\<rparr>"
proof -
  let ?early = "\<lparr>busy_start = localTime 4 6 0, busy_end = localTime 4 7 0\<rparr>"
  let ?long = "\<lparr>busy_start = localTime 4 8 0, busy_end = localTime 4 22 0\<rparr>"
  let ?range = "\<lparr>range_start = localTime 4 0 0, range_end = localTime 4 23 59\<rparr>"
  have f: "findAvailableSlots (calendarSource [?early]) 1 exampleLeader 720 ?range
             (Some mondaysOnly) = Some (Inr [wholeDaySlot 4])"
    by code_simp
  have q: "calendarSource [?early] (calendarId exampleLeader) (range_start ?range)
             (range_end ?range) = Inr [?early]"
    by code_simp
  have b: "bufferMinutes mondaysOnly = 15" by code_simp
  have nd: "\<forall>busy \<in> set [?long]. busy_start busy < busy_end busy" by code_simp
  have pos: "slot_start (wholeDaySlot 4) - 15 * msPerMinute
               < slot_end (wholeDaySlot 4) + 15 * msPerMinute"
    by code_simp
  have inside: "busy_start ?long \<le> slot_start (wholeDaySlot 4)"
    "slot_end (wholeDaySlot 4) \<le> busy_end ?long"
    "slot_start (wholeDaySlot 4) < slot_end (wholeDaySlot 4)"
    by code_simp+
  note t = returned_slots_clear_of_busy[where getFreeBusy = "calendarSource [?early]"
      and leaderId = 1 and leader = exampleLeader and duration = 720 and dateRange = ?range
      and preferences = "Some mondaysOnly" and slots = "[wholeDaySlot 4]"
      and fetched = "[?early]" and slot = "wholeDaySlot 4" and b = ?early
      and busyTimes = "[?long]" and candidate = "wholeDaySlot 4" and bufferTime = 15
      and container = ?long]
  from t f q b have c1: "\<not> overlaps (slot_start (wholeDaySlot 4) - 15 * msPerMinute)
        (slot_end (wholeDaySlot 4) + 15 * msPerMinute) ?early"
    by simp
  from t inside have c2: "isSlotBusy (wholeDaySlot 4) [?long] 15" by simp
  from t nd pos c2 have c3: "overlaps (slot_start (wholeDaySlot 4) - 15 * msPerMinute)
      (slot_end (wholeDaySlot 4) + 15 * msPerMinute) ?long"
    by simp
  from f b c1 c2 c3 show ?thesis by blast
qed

section \<open>The ranking of suggestOptimalTimes\<close>


lemma suggest_result:
  assumes "suggestOptimalTimes getFreeBusy clock contactId leaderId leader typeId
             appointmentType preferences = Some (Inr suggested)"
  shows "\<exists>found.
           findAvailableSlots getFreeBusy leaderId leader (durationMinutes appointmentType)
             \<lparr>range_start = clock 0, range_end = addDays (clock 1) 14\<rparr> preferences
             = Some (Inr found) \<and>
           suggested = map stripScore (rankedSlots clock preferences found) \<and>
           (\<forall>x \<in> set found. score x = None)"
proof -
  from assms obtain found where
    a: "findAvailableSlots getFreeBusy leaderId leader (durationMinutes appointmentType)
          \<lparr>range_start = clock 0, range_end = addDays (clock 1) 14\<rparr> preferences
          = Some (Inr found)" and
    r: "suggested = map stripScore (rankedSlots clock preferences found)"
    by (auto simp: suggestOptimalTimes_def Let_def split: option.splits sum.splits)
  have "\<forall>x \<in> set found. score x = None"
    using find_generated[OF a] by (auto simp: generatedOn_def)
  with a r show ?thesis by blast
qed



section \<open>What suggestOptimalTimes hands back\<close>

text \<open>
  Claim C10. Every slot that suggestOptimalTimes returns has no score, and is one of the
  slots that findAvailableSlots found for the search window, with the start, the end
  and the availability flag it had there: scoring and ranking change nothing else, and
  no slot is returned more often than it was found.
\<close>

theorem suggestions_carry_no_score:
  assumes "suggestOptimalTimes getFreeBusy clock contactId leaderId leader typeId
             appointmentType preferences = Some (Inr suggested)"
  shows "\<exists>found.
           findAvailableSlots getFreeBusy leaderId leader (durationMinutes appointmentType)
             \<lparr>range_start = clock 0, range_end = addDays (clock 1) 14\<rparr> preferences
             = Some (Inr found) \<and>
           (\<forall>slot \<in> set suggested. score slot = None \<and> slot \<in> set found) \<and>
           mset suggested \<subseteq># mset found \<and>
           (\<forall>r \<in> set (rankedSlots clock preferences found).
              stripScore r \<in> set suggested \<and>
              slot_start (stripScore r) = slot_start r \<and>
              slot_end (stripScore r) = slot_end r \<and>
              available (stripScore r) = available r)"
proof -
  from suggest_result[OF assms] obtain found where
    a: "findAvailableSlots getFreeBusy leaderId leader (durationMinutes appointmentType)
          \<lparr>range_start = clock 0, range_end = addDays (clock 1) 14\<rparr> preferences
          = Some (Inr found)" and
    r: "suggested = map stripScore (rankedSlots clock preferences found)" and
    none: "\<forall>x \<in> set found. score x = None"
    by blast
  have sub: "mset suggested \<subseteq># mset found"
    using mset_ranked[OF none, of clock preferences] r by simp
  then have "set suggested \<subseteq> set found" using set_mset_mono by fastforce
  with none have each: "\<forall>slot \<in> set suggested. score slot = None \<and> slot \<in> set found"
    by blast
  have fields: "\<forall>r \<in> set (rankedSlots clock preferences found).
              stripScore r \<in> set suggested \<and>
              slot_start (stripScore r) = slot_start r \<and>
              slot_end (stripScore r) = slot_end r \<and>
              available (stripScore r) = available r"
    using r by (simp add: stripScore_def)
  from a each sub fields show ?thesis by blast
qed

theorem suggestions_carry_no_score_witness:
  "suggestOptimalTimes (calendarSource []) (fixedClock (localTime 4 12 0)) 7 1 exampleLeader 1
      halfDayMeeting (Some mondaysOnly)
      = Some (Inr [wholeDaySlot 4, wholeDaySlot 11, wholeDaySlot 18]) \<and>
   findAvailableSlots (calendarSource []) 1 exampleLeader (durationMinutes halfDayMeeting)
      \<lparr>range_start = fixedClock (localTime 4 12 0) 0,
        range_end = addDays (fixedClock (localTime 4 12 0) 1) 14\<rparr> (Some mondaysOnly)
      = Some (Inr [wholeDaySlot 4, wholeDaySlot 11, wholeDaySlot 18]) \<and>
   score (wholeDaySlot 11) = None \<and>
   wholeDaySlot 11 \<in> set [wholeDaySlot 4, wholeDaySlot 11, wholeDaySlot 18]"
proof -
  let ?clock = "fixedClock (localTime 4 12 0)"
  let ?three = "[wholeDaySlot 4, wholeDaySlot 11, wholeDaySlot 18]"
  have s: "suggestOptimalTimes (calendarSource []) ?clock 7 1 exampleLeader 1
             halfDayMeeting (Some mondaysOnly) = Some (Inr ?three)"
    by code_simp
  have f: "findAvailableSlots (calendarSource []) 1 exampleLeader
             (durationMinutes halfDayMeeting)
             \<lparr>range_start = ?clock 0, range_end = addDays (?clock 1) 14\<rparr> (Some mondaysOnly)
             = Some (Inr ?three)"
    by code_simp
  from suggestions_carry_no_score[OF s] f
  have "\<forall>slot \<in> set ?three. score slot = None \<and> slot \<in> set ?three" by auto
  then have "score (wholeDaySlot 11) = None"
    and "wholeDaySlot 11 \<in> set ?three"
    by simp_all
  with s f show ?thesis by blast
qed

section \<open>Invalid ranges and durations\<close>

text \<open>
  Claim C5, as stated, fails: the service checks neither the date range nor the duration
  and has no InvalidRangeError to raise. A range that ends on Monday at 08:00 and starts
  on Monday at 18:00 yields the Monday slot; a duration of 0 yields 49 slots of no length;
  isSlotAvailable answers for a duration of -30 minutes.
\<close>

theorem invalid_input_returns_normally:
  "range_end \<lparr>range_start = localTime 4 18 0, range_end = localTime 4 8 0\<rparr>
     < range_start \<lparr>range_start = localTime 4 18 0, range_end = localTime 4 8 0\<rparr> \<and>
   findAvailableSlots (calendarSource []) 1 exampleLeader 720
      \<lparr>range_start = localTime 4 18 0, range_end = localTime 4 8 0\<rparr> None
      = Some (Inr [wholeDaySlot 4]) \<and>
   map_option (map_sum id length)
     (findAvailableSlots (calendarSource []) 1 exampleLeader 0
        \<lparr>range_start = localTime 4 0 0, range_end = localTime 4 23 59\<rparr> None)
      = Some (Inr 49) \<and>
   isSlotAvailable (calendarSource []) exampleLeader (localTime 4 9 0) (- 30) None = Inr True"
  by code_simp

text \<open>
  Claim C5, amended. An operation of the service fails only with the error that the
  busy-time lookup raised. When the lookup answers, isSlotAvailable returns a boolean,
  and findAvailableSlots, suggestOptimalTimes and getNextAvailableSlot return a normal
  result whenever the duration plus the buffer of the search is positive, whatever the
  order of the range's ends and the sign of the duration.
\<close>

theorem engine_raises_only_lookup_errors:
  "(findAvailableSlots getFreeBusy leaderId leader duration dateRange preferences
        = Some (Inl e) \<or>
    suggestOptimalTimes getFreeBusy clock contactId leaderId leader typeId appointmentType
        preferences = Some (Inl e) \<or>
    getNextAvailableSlot getFreeBusy clock leader duration preferences = Some (Inl e) \<or>
    isSlotAvailable getFreeBusy leader start duration bufferArg = Inl e \<longrightarrow>
      (\<exists>rangeStart rangeEnd. getFreeBusy (calendarId leader) rangeStart rangeEnd = Inl e)) \<and>
   ((\<forall>rangeStart rangeEnd. \<exists>busyTimes.
        getFreeBusy (calendarId leader) rangeStart rangeEnd = Inr busyTimes) \<longrightarrow>
      (\<exists>answer. isSlotAvailable getFreeBusy leader start duration bufferArg = Inr answer) \<and>
      (0 < duration + bufferTimeOf preferences \<longrightarrow>
         (\<exists>slots. findAvailableSlots getFreeBusy leaderId leader duration dateRange
                     preferences = Some (Inr slots)) \<and>
         (\<exists>found. getNextAvailableSlot getFreeBusy clock leader duration preferences
                     = Some (Inr found))) \<and>
      (0 < durationMinutes appointmentType + bufferTimeOf preferences \<longrightarrow>
         (\<exists>slots. suggestOptimalTimes getFreeBusy clock contactId leaderId leader typeId
                     appointmentType preferences = Some (Inr slots))))"
proof -
  have err_find: "\<exists>rangeStart rangeEnd. getFreeBusy (calendarId leader) rangeStart rangeEnd = Inl e"
    if "findAvailableSlots getFreeBusy lid leader d range preferences = Some (Inl e)"
    for lid d range
    using find_error[OF that] by blast
  have err_suggest: "\<exists>rangeStart rangeEnd. getFreeBusy (calendarId leader) rangeStart rangeEnd = Inl e"
    if "suggestOptimalTimes getFreeBusy clock contactId leaderId leader typeId appointmentType
          preferences = Some (Inl e)"
    using that err_find
    by (auto simp: suggestOptimalTimes_def Let_def split: option.splits sum.splits)
  have err_next: "\<exists>rangeStart rangeEnd. getFreeBusy (calendarId leader) rangeStart rangeEnd = Inl e"
    if "getNextAvailableSlot getFreeBusy clock leader duration preferences = Some (Inl e)"
    using that err_find
    by (auto simp: getNextAvailableSlot_def Let_def split: option.splits sum.splits)
  have err_check: "\<exists>rangeStart rangeEnd. getFreeBusy (calendarId leader) rangeStart rangeEnd = Inl e"
    if "isSlotAvailable getFreeBusy leader start duration bufferArg = Inl e"
    using that by (auto simp: isSlotAvailable_def Let_def split: sum.splits)
  have ok_check: "\<exists>answer. isSlotAvailable getFreeBusy leader start duration bufferArg = Inr answer"
    if "\<forall>rangeStart rangeEnd. \<exists>busyTimes.
          getFreeBusy (calendarId leader) rangeStart rangeEnd = Inr busyTimes"
  proof -
    let ?b = "case bufferArg of None \<Rightarrow> defaultBufferTime | Some b \<Rightarrow> b"
    from that obtain busyTimes where
      "getFreeBusy (calendarId leader) (start - ?b * 60 * 1000)
         (start + duration * 60 * 1000 + ?b * 60 * 1000) = Inr busyTimes"
      by blast
    then show ?thesis by (simp add: isSlotAvailable_def Let_def)
  qed
  have ok_find: "\<exists>slots. findAvailableSlots getFreeBusy lid leader d range preferences
                   = Some (Inr slots)"
    if "\<forall>rangeStart rangeEnd. \<exists>busyTimes.
          getFreeBusy (calendarId leader) rangeStart rangeEnd = Inr busyTimes"
      and "0 < d + bufferTimeOf preferences"
    for lid d range
    using find_returns[OF _ that(2)] that(1) by blast
  have ok_next: "\<exists>found. getNextAvailableSlot getFreeBusy clock leader duration preferences
                   = Some (Inr found)"
    if "\<forall>rangeStart rangeEnd. \<exists>busyTimes.
          getFreeBusy (calendarId leader) rangeStart rangeEnd = Inr busyTimes"
      and "0 < duration + bufferTimeOf preferences"
    using ok_find[OF that, of "leader_id leader"
        "\<lparr>range_start = clock 0, range_end = addDays (clock 1) 30\<rparr>"]
    by (auto simp: getNextAvailableSlot_def Let_def)
  have ok_suggest: "\<exists>slots. suggestOptimalTimes getFreeBusy clock contactId leaderId leader
                      typeId appointmentType preferences = Some (Inr slots)"
    if "\<forall>rangeStart rangeEnd. \<exists>busyTimes.
          getFreeBusy (calendarId leader) rangeStart rangeEnd = Inr busyTimes"
      and "0 < durationMinutes appointmentType + bufferTimeOf preferences"
    using ok_find[OF that, of leaderId
        "\<lparr>range_start = clock 0, range_end = addDays (clock 1) 14\<rparr>"]
    by (auto simp: suggestOptimalTimes_def Let_def)
  from err_find err_suggest err_next err_check ok_check ok_find ok_next ok_suggest
  show ?thesis by blast
qed

theorem engine_raises_only_lookup_errors_witness:
  "(\<forall>rangeStart rangeEnd. \<exists>busyTimes.
      calendarSource [] (calendarId exampleLeader) rangeStart rangeEnd = Inr busyTimes) \<and>
   0 < - 5 + bufferTimeOf None \<and>
   0 < durationMinutes hourMeeting + bufferTimeOf None \<and>
   (\<exists>answer. isSlotAvailable (calendarSource []) exampleLeader (localTime 4 9 0) (- 5) None
                = Inr answer) \<and>
   (\<exists>slots. findAvailableSlots (calendarSource []) 1 exampleLeader (- 5)
               \<lparr>range_start = localTime 4 18 0, range_end = localTime 4 8 0\<rparr> None
               = Some (Inr slots)) \<and>
   (\<exists>found. getNextAvailableSlot (calendarSource []) (fixedClock (localTime 4 12 0))
               exampleLeader (- 5) None = Some (Inr found)) \<and>
   (\<exists>slots. suggestOptimalTimes (calendarSource []) (fixedClock (localTime 4 12 0)) 7 1
               exampleLeader 2 hourMeeting None = Some (Inr slots))"
proof -
  have src: "\<forall>rangeStart rangeEnd. \<exists>busyTimes.
      calendarSource [] (calendarId exampleLeader) rangeStart rangeEnd = Inr busyTimes"
    by (simp add: calendarSource_def)
  have p1: "0 < - 5 + bufferTimeOf None" by code_simp
  have p2: "0 < durationMinutes hourMeeting + bufferTimeOf None" by code_simp
  note t = engine_raises_only_lookup_errors[where getFreeBusy = "calendarSource []"
      and leader = exampleLeader and duration = "- 5" and preferences = None
      and appointmentType = hourMeeting and leaderId = 1
      and dateRange = "\<lparr>range_start = localTime 4 18 0, range_end = localTime 4 8 0\<rparr>"
      and clock = "fixedClock (localTime 4 12 0)" and contactId = 7 and typeId = 2
      and start = "localTime 4 9 0" and bufferArg = None]
  from t src p1 p2 show ?thesis by blast
qed

section \<open>The score of a slot\<close>



section \<open>Slots outside the searched range\<close>

text \<open>
  Claim C9. Slot generation starts at midnight of the day of \<open>dateRange.start\<close> and runs
  each day to its closing time. A search from Monday 12:00 to Monday 13:00 returns the slot
  from 09:00 to 21:00, which starts before the range and ends after it; and
  suggestOptimalTimes at Monday 12:00 puts first the Monday slot that began at 09:00,
  before the reading of the clock.
\<close>

theorem slots_outside_searched_range:
  "findAvailableSlots (calendarSource []) 1 exampleLeader 720
      \<lparr>range_start = localTime 4 12 0, range_end = localTime 4 13 0\<rparr> None
      = Some (Inr [wholeDaySlot 4]) \<and>
   slot_start (wholeDaySlot 4) < localTime 4 12 0 \<and>
   localTime 4 13 0 < slot_end (wholeDaySlot 4) \<and>
   suggestOptimalTimes (calendarSource []) (fixedClock (localTime 4 12 0)) 7 1 exampleLeader 1
      halfDayMeeting (Some mondaysOnly)
      = Some (Inr [wholeDaySlot 4, wholeDaySlot 11, wholeDaySlot 18]) \<and>
   slot_start (wholeDaySlot 4) < fixedClock (localTime 4 12 0) 0"
  by code_simp

section \<open>A slot that was found and its check\<close>

text \<open>
  Claim C6 says that a slot which findAvailableSlots returns passes isSlotAvailable
  with the same buffer. The search fetches the busy intervals of the range it was given
  but offers slots of the whole day: with a meeting on Monday from 09:00 to 10:00, a search
  from Monday 12:00 to 13:00 for 60 minutes (buffer 15 in both calls) returns the slot at
  09:00 first, and isSlotAvailable says that this slot is taken.
\<close>

theorem found_slot_fails_its_check:
  "bufferTimeOf None = 15 \<and>
   calendarSource [\<lparr>busy_start = localTime 4 9 0, busy_end = localTime 4 10 0\<rparr>]
      (calendarId exampleLeader) (localTime 4 12 0) (localTime 4 13 0) = Inr [] \<and>
   (case findAvailableSlots
           (calendarSource [\<lparr>busy_start = localTime 4 9 0, busy_end = localTime 4 10 0\<rparr>])
           1 exampleLeader 60
           \<lparr>range_start = localTime 4 12 0, range_end = localTime 4 13 0\<rparr> None of
      Some (Inr (first # rest)) \<Rightarrow> first = meetingAt 4 9 0
    | _ \<Rightarrow> False) \<and>
   isSlotAvailable
      (calendarSource [\<lparr>busy_start = localTime 4 9 0, busy_end = localTime 4 10 0\<rparr>])
      exampleLeader (localTime 4 9 0) 60 (Some 15) = Inr False"
  by code_simp

text \<open>
  The two operations do agree on a slot whose widened window lies inside the searched
  range, where the search has seen every busy interval that the check will see.
\<close>

lemma slot_inside_range_passes_check:
  assumes f: "findAvailableSlots (calendarSource calendar) leaderId leader duration dateRange
                preferences = Some (Inr slots)"
    and m: "slot \<in> set slots"
    and lo: "range_start dateRange \<le> slot_start slot - bufferTimeOf preferences * 60 * 1000"
    and hi: "slot_end slot + bufferTimeOf preferences * 60 * 1000 \<le> range_end dateRange"
  shows "isSlotAvailable (calendarSource calendar) leader (slot_start slot) duration
           (Some (bufferTimeOf preferences)) = Inr True"
proof -
  let ?buf = "bufferTimeOf preferences"
  let ?S = "slot_start slot - ?buf * 60 * 1000"
  let ?E = "slot_end slot + ?buf * 60 * 1000"
  let ?fetched = "filter (\<lambda>b. busy_start b < range_end dateRange \<and>
                     range_start dateRange < busy_end b) calendar"
  from find_generated[OF f m] have len: "slot_end slot = slot_start slot + duration * 60 * 1000"
    by (auto simp: generatedOn_def)
  from find_result[OF f] m have free: "\<not> isSlotBusy slot ?fetched ?buf"
    by (auto simp: calendarSource_def)
  have "filter (\<lambda>b. busy_start b < ?E \<and> ?S < busy_end b) calendar = []"
  proof (rule ccontr)
    assume "filter (\<lambda>b. busy_start b < ?E \<and> ?S < busy_end b) calendar \<noteq> []"
    then obtain b where b: "b \<in> set calendar" "busy_start b < ?E" "?S < busy_end b"
      by (auto simp: filter_empty_conv)
    with lo hi have "b \<in> set ?fetched" by simp
    moreover from b have "overlaps (slot_start slot - ?buf * msPerMinute)
        (slot_end slot + ?buf * msPerMinute) b"
      by (simp add: overlaps_def msPerMinute_def)
    ultimately have "isSlotBusy slot ?fetched ?buf" by (rule overlap_is_busy)
    with free show False by simp
  qed
  then show ?thesis
    by (simp add: isSlotAvailable_def Let_def calendarSource_def len)
qed

end
